theory Spec2Isabelle
  imports Main
begin

section \<open>Data model of \<open>src/index.ts\<close>\<close>

text \<open>
  The monitored targets are the elements of the constant array \<open>services\<close>; each has a
  \<open>name\<close> and a \<open>url\<close>.
\<close>

record ServiceTarget =
  name :: string
  url :: string

definition services :: "ServiceTarget list" where
  "services =
     [\<lparr>ServiceTarget.name = ''backend'', url = ''http://localhost:5000/health''\<rparr>,
      \<lparr>ServiceTarget.name = ''core'', url = ''http://localhost:3000/health''\<rparr>,
      \<lparr>ServiceTarget.name = ''admin'', url = ''http://localhost:3010''\<rparr>,
      \<lparr>ServiceTarget.name = ''guest'', url = ''http://localhost:3011''\<rparr>,
      \<lparr>ServiceTarget.name = ''staff'', url = ''http://localhost:3012''\<rparr>,
      \<lparr>ServiceTarget.name = ''marketplace'', url = ''http://localhost:3013''\<rparr>,
      \<lparr>ServiceTarget.name = ''gateway'', url = ''http://localhost:8080/health''\<rparr>]"

text \<open>
  \<open>interface ServiceStatus\<close>. The union type of \<open>status\<close> is a datatype; JavaScript
  numbers that hold millisecond counts are integers; a \<open>Date\<close> is the integer number of
  milliseconds it denotes; the optional \<open>error\<close> is an option.
\<close>

datatype health = Healthy | Unhealthy | Unknown

record ServiceStatus =
  name :: string
  status :: health
  responseTime :: int
  lastCheck :: int
  uptime :: nat
  error :: "string option"

section \<open>The HTTP client seen from \<open>checkServiceHealth\<close>\<close>

text \<open>
  \<open>axios.get\<close> belongs to a library, not to this repository. What one call can do is
  the environment of the prober, given as a value of \<open>probe_outcome\<close>:
  the server answered with a status code, no answer came within the timeout, the
  connection failed with an error carrying a message, or the awaited call threw some
  other value. The \<open>catch\<close> clause of the source binds its variable at type \<open>any\<close>, so
  a thrown value is modelled by what reading \<open>.message\<close> from it does: it raises on
  \<open>null\<close> and \<open>undefined\<close>, and yields a string or \<open>undefined\<close> on an object.
\<close>

datatype js_value = JsNullish | JsObject "string option"

datatype probe_outcome =
    Response nat
  | Timeout
  | TransportFailure string
  | Fault js_value

datatype axios_result = Resolved nat | Threw js_value

text \<open>Decimal rendering of a number, as string concatenation in JavaScript does it.\<close>

definition digit :: "nat \<Rightarrow> char" where
  "digit n = ''0123456789'' ! n"

function decimal :: "nat \<Rightarrow> string" where
  "decimal n = (if n < 10 then [digit n] else decimal (n div 10) @ [digit (n mod 10)])"
  by pat_completeness auto
termination
  by (relation "measure (\<lambda>n. n)") auto

declare decimal.simps [simp del]

text \<open>
  The contract of \<open>axios.get(url, {timeout, validateStatus})\<close>: a response is handed to
  the caller's \<open>validateStatus\<close>; the promise resolves when that accepts the code and
  rejects with an error object otherwise; a timeout and a transport failure reject with
  an error object too. The messages are the library's.
\<close>

fun axios_get :: "nat \<Rightarrow> (nat \<Rightarrow> bool) \<Rightarrow> probe_outcome \<Rightarrow> axios_result" where
  "axios_get timeout validate (Response code) =
     (if validate code then Resolved code
      else Threw (JsObject (Some (''Request failed with status code '' @ decimal code))))"
| "axios_get timeout validate Timeout =
     Threw (JsObject (Some (''timeout of '' @ decimal timeout @ ''ms exceeded'')))"
| "axios_get timeout validate (TransportFailure msg) = Threw (JsObject (Some msg))"
| "axios_get timeout validate (Fault v) = Threw v"

section \<open>The health prober\<close>

text \<open>
  The arrow function passed as \<open>validateStatus\<close>:
  \<^verbatim>\<open>(status) => status < 500\<close>.
\<close>

definition validateStatus :: "nat \<Rightarrow> bool" where
  "validateStatus status_code = (status_code < 500)"

text \<open>
  A promise of the source settles: it is fulfilled with a value or rejected with an
  exception. The only exception the modelled code can raise itself is the
  \<open>TypeError\<close> of a property read from \<open>null\<close> or \<open>undefined\<close>.
\<close>

datatype js_exception = TypeError

datatype 'a settled = Fulfilled 'a | Rejected js_exception

text \<open>Reading \<open>error.message\<close>.\<close>

fun message_of :: "js_value \<Rightarrow> js_exception + string option" where
  "message_of JsNullish = Inl TypeError"
| "message_of (JsObject m) = Inr m"

text \<open>
  One call of \<open>checkServiceHealth\<close> reads the clock three times (\<open>Date.now()\<close>
  before the request, \<open>Date.now()\<close> after it, \<open>new Date()\<close> for \<open>lastCheck\<close>) and
  awaits one request; these four observations are its environment.
\<close>

record probe_env =
  startTime :: int
  outcome :: probe_outcome
  endTime :: int
  checkTime :: int

definition checkServiceHealth :: "probe_env \<Rightarrow> ServiceTarget \<Rightarrow> ServiceStatus settled" where
  "checkServiceHealth env service =
     (case axios_get 5000 validateStatus (outcome env) of
        Resolved response_status \<Rightarrow>
          Fulfilled
            \<lparr>ServiceStatus.name = ServiceTarget.name service,
             status = Healthy,
             responseTime = endTime env - startTime env,
             lastCheck = checkTime env,
             uptime = (if response_status = 200 then 100 else 90),
             error = None\<rparr>
      | Threw err \<Rightarrow>
          (case message_of err of
             Inl exn \<Rightarrow> Rejected exn
           | Inr msg \<Rightarrow>
               Fulfilled
                 \<lparr>ServiceStatus.name = ServiceTarget.name service,
                  status = Unhealthy,
                  responseTime = endTime env - startTime env,
                  lastCheck = checkTime env,
                  uptime = 0,
                  error = msg\<rparr>))"

section \<open>The status store and the live set\<close>

text \<open>
  \<open>serviceStatuses\<close> is a JavaScript \<open>Map\<close>: its entries keep the order in which their
  keys were first inserted, \<open>set\<close> on a key already present replaces the value in place,
  and \<open>values()\<close> lists the values in entry order. An association list carries all of
  that.
\<close>

type_synonym status_store = "(string \<times> ServiceStatus) list"

fun map_set :: "'k \<Rightarrow> 'v \<Rightarrow> ('k \<times> 'v) list \<Rightarrow> ('k \<times> 'v) list" where
  "map_set k v [] = [(k, v)]"
| "map_set k v ((k', v') # m) =
     (if k' = k then (k', v) # m else (k', v') # map_set k v m)"

definition map_values :: "('k \<times> 'v) list \<Rightarrow> 'v list" where
  "map_values m = map snd m"

text \<open>
  \<open>clients\<close> is a JavaScript \<open>Set\<close> of connections, again in insertion order. A
  connection is the identity of its socket object, a number.
\<close>

definition set_add :: "'a \<Rightarrow> 'a list \<Rightarrow> 'a list" where
  "set_add x xs = (if x \<in> set xs then xs else xs @ [x])"

definition set_delete :: "'a \<Rightarrow> 'a list \<Rightarrow> 'a list" where
  "set_delete x xs = removeAll x xs"

text \<open>
  The object given to \<open>JSON.stringify\<close> before \<open>send\<close>. The message of the connection
  handler has no \<open>timestamp\<close>; the broadcast has one (the broadcast time stands for its
  ISO rendering).
\<close>

record StatusMessage =
  type :: string
  data :: "ServiceStatus list"
  timestamp :: "int option"

text \<open>
  The state of the process: the two module variables, and the trace of every call of
  \<open>send\<close> (receiving connection and payload, oldest first), which is how the output of
  the hub is observed.
\<close>

record monitor_state =
  serviceStatuses :: status_store
  clients :: "nat list"
  sent :: "(nat \<times> StatusMessage) list"

definition initial_state :: monitor_state where
  "initial_state = \<lparr>serviceStatuses = [], clients = [], sent = []\<rparr>"

section \<open>The broadcast hub\<close>

text \<open>
  \<open>broadcastStatus\<close> builds the payload once and walks the set; \<open>ready\<close> gives the
  \<open>readyState\<close> of each connection at that moment and \<open>now\<close> the clock. Only a connection
  whose state is 1 (\<open>WebSocket.OPEN\<close>) is sent to.
\<close>

definition broadcastStatus :: "(nat \<Rightarrow> nat) \<Rightarrow> int \<Rightarrow> monitor_state \<Rightarrow> monitor_state" where
  "broadcastStatus ready now s =
     (let statusData =
            \<lparr>type = ''status'', data = map_values (serviceStatuses s), timestamp = Some now\<rparr>
      in fold (\<lambda>client s'.
                 if ready client = 1 then s'\<lparr>sent := sent s' @ [(client, statusData)]\<rparr>
                 else s')
           (clients s) s)"

text \<open>The handler of \<open>connection\<close>, and the handler of \<open>close\<close> it installs.\<close>

definition on_connection :: "nat \<Rightarrow> monitor_state \<Rightarrow> monitor_state" where
  "on_connection ws s =
     s\<lparr>clients := set_add ws (clients s),
       sent := sent s @
         [(ws, \<lparr>type = ''status'', data = map_values (serviceStatuses s), timestamp = None\<rparr>)]\<rparr>"

definition on_close :: "nat \<Rightarrow> monitor_state \<Rightarrow> monitor_state" where
  "on_close ws s = s\<lparr>clients := set_delete ws (clients s)\<rparr>"

section \<open>The polling cycle\<close>

text \<open>
  What one run of \<open>monitorServices\<close> observes: the environment of the probe started for
  the service at each index, the clock read when a status is synthesized at an index,
  the \<open>readyState\<close> of every connection and the clock at the broadcast.
\<close>

record cycle_env =
  probes :: "nat \<Rightarrow> probe_env"
  synthTime :: "nat \<Rightarrow> int"
  readyState :: "nat \<Rightarrow> nat"
  broadcastTime :: int

text \<open>\<^verbatim>\<open>services[index]?.name || 'unknown'\<close>\<close>

definition serviceName :: "nat \<Rightarrow> string" where
  "serviceName index =
     (if index < length services \<and> ServiceTarget.name (services ! index) \<noteq> []
      then ServiceTarget.name (services ! index) else ''unknown'')"

text \<open>The callback of \<open>results.forEach\<close>, on the store.\<close>

definition store_result ::
  "cycle_env \<Rightarrow> nat \<times> ServiceStatus settled \<Rightarrow> status_store \<Rightarrow> status_store" where
  "store_result env = (\<lambda>(index, result) store.
     (case result of
        Fulfilled statusResult \<Rightarrow> map_set (serviceName index) statusResult store
      | Rejected reason \<Rightarrow>
          map_set (serviceName index)
            \<lparr>ServiceStatus.name = serviceName index,
             status = Unknown,
             responseTime = 0,
             lastCheck = synthTime env index,
             uptime = 0,
             error = Some ''Health check failed''\<rparr> store))"

text \<open>
  \<open>monitorServices\<close>: one probe per element of \<open>services\<close>, all settled, then the loop
  over the results with their indices, then the broadcast. The part after the
  \<open>await\<close> runs without interruption, so the cycle is one step on the state.
\<close>

definition monitorServices :: "cycle_env \<Rightarrow> monitor_state \<Rightarrow> monitor_state" where
  "monitorServices env s =
     (let results =
            map (\<lambda>(index, service). checkServiceHealth (probes env index) service)
              (zip [0..<length services] services);
          s' = s\<lparr>serviceStatuses :=
                   fold (store_result env) (zip [0..<length results] results)
                     (serviceStatuses s)\<rparr>
      in broadcastStatus (readyState env) (broadcastTime env) s')"

section \<open>The status summary of the query surface\<close>

record StatusSummary =
  totalServices :: int
  healthyServices :: int
  unhealthyServices :: int
  overallHealth :: string

record StatusResponse =
  success :: bool
  summary :: StatusSummary
  response_services :: "ServiceStatus list"

definition api_status :: "monitor_state \<Rightarrow> StatusResponse" where
  "api_status s =
     (let statuses = map_values (serviceStatuses s);
          healthyCount = int (length (filter (\<lambda>x. status x = Healthy) statuses))
      in \<lparr>success = True,
          summary =
            \<lparr>totalServices = int (length statuses),
             healthyServices = healthyCount,
             unhealthyServices = int (length statuses) - healthyCount,
             overallHealth =
               (if healthyCount = int (length statuses) then ''healthy'' else ''degraded'')\<rparr>,
          response_services = statuses\<rparr>)"

section \<open>Runs of the process\<close>

text \<open>
  The process starts with an empty store and an empty set and then handles events one
  at a time: a polling cycle completing, a client connecting, a connection closing.
\<close>

datatype event = Cycle cycle_env | Connection nat | Close nat

fun step :: "event \<Rightarrow> monitor_state \<Rightarrow> monitor_state" where
  "step (Cycle env) s = monitorServices env s"
| "step (Connection ws) s = on_connection ws s"
| "step (Close ws) s = on_close ws s"

definition run :: "event list \<Rightarrow> monitor_state \<Rightarrow> monitor_state" where
  "run evs s = fold step evs s"

text \<open>
  The status a cycle records for the service at an index: the prober's record, or the
  synthesized one when the prober's promise was rejected. It is the value the callback
  \<open>store_result\<close> writes, named so that the properties below can speak of it.
\<close>

definition cycle_status :: "cycle_env \<Rightarrow> nat \<Rightarrow> ServiceStatus" where
  "cycle_status env index =
     (case checkServiceHealth (probes env index) (services ! index) of
        Fulfilled statusResult \<Rightarrow> statusResult
      | Rejected reason \<Rightarrow>
          \<lparr>ServiceStatus.name = serviceName index, status = Unknown, responseTime = 0,
           lastCheck = synthTime env index, uptime = 0,
           error = Some ''Health check failed''\<rparr>)"

text \<open>Sample environments and runs, for instances of the theorems below.\<close>

definition probe_ok :: probe_env where
  "probe_ok = \<lparr>startTime = 1000, outcome = Response 200, endTime = 1010, checkTime = 1011\<rparr>"

definition probe_timeout :: probe_env where
  "probe_timeout = \<lparr>startTime = 1000, outcome = Timeout, endTime = 6001, checkTime = 6002\<rparr>"

definition probe_fault :: probe_env where
  "probe_fault =
     \<lparr>startTime = 1000, outcome = Fault JsNullish, endTime = 1001, checkTime = 1002\<rparr>"

definition sample_cycle :: cycle_env where
  "sample_cycle =
     \<lparr>probes = (\<lambda>index. if index = 1 then probe_timeout
                        else if index = 2 then probe_fault else probe_ok),
      synthTime = (\<lambda>index. 6003),
      readyState = (\<lambda>client. if client = 7 then 2 else 1),
      broadcastTime = 6004\<rparr>"

section \<open>Properties of the prober\<close>

lemma checkServiceHealth_accepted:
  "code < 500 \<Longrightarrow>
   checkServiceHealth (env\<lparr>outcome := Response code\<rparr>) service =
     Fulfilled
       \<lparr>ServiceStatus.name = ServiceTarget.name service, status = Healthy,
        responseTime = endTime env - startTime env, lastCheck = checkTime env,
        uptime = (if code = 200 then 100 else 90), error = None\<rparr>"
  by (simp add: checkServiceHealth_def validateStatus_def)

lemma checkServiceHealth_refused:
  "500 \<le> code \<Longrightarrow>
   checkServiceHealth (env\<lparr>outcome := Response code\<rparr>) service =
     Fulfilled
       \<lparr>ServiceStatus.name = ServiceTarget.name service, status = Unhealthy,
        responseTime = endTime env - startTime env, lastCheck = checkTime env,
        uptime = 0,
        error = Some (''Request failed with status code '' @ decimal code)\<rparr>"
  by (simp add: checkServiceHealth_def validateStatus_def)

lemma checkServiceHealth_timeout:
  "checkServiceHealth (env\<lparr>outcome := Timeout\<rparr>) service =
     Fulfilled
       \<lparr>ServiceStatus.name = ServiceTarget.name service, status = Unhealthy,
        responseTime = endTime env - startTime env, lastCheck = checkTime env,
        uptime = 0,
        error = Some (''timeout of '' @ decimal 5000 @ ''ms exceeded'')\<rparr>"
  by (simp add: checkServiceHealth_def)

lemma checkServiceHealth_transport:
  "checkServiceHealth (env\<lparr>outcome := TransportFailure msg\<rparr>) service =
     Fulfilled
       \<lparr>ServiceStatus.name = ServiceTarget.name service, status = Unhealthy,
        responseTime = endTime env - startTime env, lastCheck = checkTime env,
        uptime = 0, error = Some msg\<rparr>"
  by (simp add: checkServiceHealth_def)

lemma checkServiceHealth_fault_nullish:
  "checkServiceHealth (env\<lparr>outcome := Fault JsNullish\<rparr>) service = Rejected TypeError"
  by (simp add: checkServiceHealth_def)

lemma decimal_5000: "decimal 5000 = ''5000''"
  by (simp add: decimal.simps [of 5000] decimal.simps [of 500] decimal.simps [of 50]
      decimal.simps [of 5] digit_def)

section \<open>Properties of the store and of a cycle\<close>

lemma map_set_keys: "map fst (map_set k v m) = set_add k (map fst m)"
  by (induction m) (force simp: set_add_def)+

lemma map_of_map_set: "map_of (map_set k v m) = (map_of m)(k \<mapsto> v)"
  by (induction m) auto

lemma fold_map_set_keys:
  "map fst (fold (\<lambda>i. map_set (g i) (f i)) is st) = fold set_add (map g is) (map fst st)"
  by (induction "is" arbitrary: st) (simp_all add: map_set_keys)

lemma fold_set_add_present: "set ks \<subseteq> set xs \<Longrightarrow> fold set_add ks xs = xs"
  by (induction ks arbitrary: xs) (simp_all add: set_add_def)

lemma fold_set_add_fresh: "distinct (xs @ ks) \<Longrightarrow> fold set_add ks xs = xs @ ks"
  by (induction ks arbitrary: xs) (simp_all add: set_add_def)

lemma map_of_fold_map_set:
  "inj_on g (set is) \<Longrightarrow> j \<in> set is \<Longrightarrow>
   map_of (fold (\<lambda>i. map_set (g i) (f i)) is st) (g j) = Some (f j)"
proof (induction "is" arbitrary: st rule: rev_induct)
  case Nil
  then show ?case by simp
next
  case (snoc i "is")
  show ?case
  proof (cases "j = i")
    case True
    then show ?thesis by (simp add: map_of_map_set)
  next
    case False
    with snoc.prems have j: "j \<in> set is" and ne: "g i \<noteq> g j"
      by (auto simp: inj_on_def)
    from snoc.prems have "inj_on g (set is)" by (simp add: inj_on_def)
    with snoc.IH j have "map_of (fold (\<lambda>i. map_set (g i) (f i)) is st) (g j) = Some (f j)"
      by blast
    with ne show ?thesis by (simp add: map_of_map_set)
  qed
qed

lemma alist_eqI:
  "map fst xs = map fst ys \<Longrightarrow> distinct (map fst xs) \<Longrightarrow>
   (\<And>k. k \<in> set (map fst xs) \<Longrightarrow> map_of xs k = map_of ys k) \<Longrightarrow> xs = ys"
proof (induction xs arbitrary: ys)
  case Nil
  then show ?case by simp
next
  case (Cons x xs)
  then obtain y ys' where ys: "ys = y # ys'" by (cases ys) auto
  with Cons.prems(1) have k: "fst x = fst y" and ks: "map fst xs = map fst ys'" by auto
  from Cons.prems(3) [of "fst x"] ys k have "snd x = snd y"
    by (cases x; cases y) auto
  with k have xy: "x = y" by (simp add: prod_eq_iff)
  have "xs = ys'"
  proof (rule Cons.IH [OF ks])
    show "distinct (map fst xs)" using Cons.prems(2) by simp
  next
    fix k assume kin: "k \<in> set (map fst xs)"
    with Cons.prems(2) have "k \<noteq> fst x" by force
    with Cons.prems(3) [of k] kin ys k show "map_of xs k = map_of ys' k"
      by (cases x; cases y) (simp split: if_splits)
  qed
  with xy ys show ?case by simp
qed


lemma map_of_mapped:
  "inj_on g (set is) \<Longrightarrow> j \<in> set is \<Longrightarrow> map_of (map (\<lambda>i. (g i, f i)) is) (g j) = Some (f j)"
  by (induction "is") (auto simp: inj_on_def)

lemma service_names:
  "map ServiceTarget.name services =
     [''backend'', ''core'', ''admin'', ''guest'', ''staff'', ''marketplace'', ''gateway'']"
  by (simp add: services_def)

lemma length_services: "length services = 7"
  by (simp add: services_def)

lemma distinct_service_names: "distinct (map ServiceTarget.name services)"
  by (simp add: service_names)

lemma service_name_nonempty: "T \<in> set services \<Longrightarrow> ServiceTarget.name T \<noteq> []"
  by (auto simp: services_def)

lemma serviceName_registered:
  "index < length services \<Longrightarrow> serviceName index = ServiceTarget.name (services ! index)"
  by (simp add: serviceName_def service_name_nonempty)

lemma serviceName_upt: "map serviceName [0..<length services] = map ServiceTarget.name services"
  by (rule nth_equalityI) (simp_all add: serviceName_registered)

lemma inj_on_serviceName: "inj_on serviceName (set [0..<length services])"
proof (rule inj_onI)
  fix i j
  assume "i \<in> set [0..<length services]" "j \<in> set [0..<length services]"
    and "serviceName i = serviceName j"
  then have "i < length (map ServiceTarget.name services)"
    "j < length (map ServiceTarget.name services)"
    "map ServiceTarget.name services ! i = map ServiceTarget.name services ! j"
    by (simp_all add: serviceName_registered)
  with distinct_service_names show "i = j"
    by (simp only: nth_eq_iff_index_eq)
qed

lemma zip_upt_nth: "zip [0..<length xs] xs = map (\<lambda>i. (i, xs ! i)) [0..<length xs]"
  by (rule nth_equalityI) simp_all

lemma store_result_cycle_status:
  "store_result env (index, checkServiceHealth (probes env index) (services ! index)) =
     map_set (serviceName index) (cycle_status env index)"
  by (rule ext) (simp add: store_result_def cycle_status_def split: settled.split)

lemma cycle_fold:
  "fold (store_result env)
     (zip [0..<length (map (\<lambda>(index, service). checkServiceHealth (probes env index) service)
                          (zip [0..<length services] services))]
        (map (\<lambda>(index, service). checkServiceHealth (probes env index) service)
           (zip [0..<length services] services))) st =
   fold (\<lambda>index. map_set (serviceName index) (cycle_status env index)) [0..<length services] st"
proof -
  have results:
    "map (\<lambda>(index, service). checkServiceHealth (probes env index) service)
       (zip [0..<length services] services) =
     map (\<lambda>index. checkServiceHealth (probes env index) (services ! index))
       [0..<length services]"
    by (simp add: zip_upt_nth [of services])
  have pairs:
    "zip [0..<length services]
       (map (\<lambda>index. checkServiceHealth (probes env index) (services ! index))
          [0..<length services]) =
     map (\<lambda>index. (index, checkServiceHealth (probes env index) (services ! index)))
       [0..<length services]"
    by (rule nth_equalityI) simp_all
  have "fold (store_result env)
          (map (\<lambda>index. (index, checkServiceHealth (probes env index) (services ! index)))
             [0..<length services]) st =
        fold (\<lambda>index. map_set (serviceName index) (cycle_status env index))
          [0..<length services] st"
    by (simp add: fold_map comp_def store_result_cycle_status)
  with results pairs show ?thesis by simp
qed

lemma store_after_cycle:
  assumes "map fst st = [] \<or> map fst st = map ServiceTarget.name services"
  shows "fold (\<lambda>index. map_set (serviceName index) (cycle_status env index))
           [0..<length services] st =
         map (\<lambda>index. (ServiceTarget.name (services ! index), cycle_status env index))
           [0..<length services]"
    (is "?lhs = ?rhs")
proof (rule alist_eqI)
  have "fold set_add (map ServiceTarget.name services) (map fst st) =
        map ServiceTarget.name services"
    using assms distinct_service_names
    by (auto simp: fold_set_add_present dest: fold_set_add_fresh [of "[]", simplified])
  moreover have "map fst ?rhs = map ServiceTarget.name services"
    by (rule nth_equalityI) simp_all
  ultimately show keys: "map fst ?lhs = map fst ?rhs"
    by (simp add: fold_map_set_keys serviceName_upt)
  from keys \<open>map fst ?rhs = map ServiceTarget.name services\<close> distinct_service_names
  show "distinct (map fst ?lhs)" by simp
  fix k assume "k \<in> set (map fst ?lhs)"
  with keys \<open>map fst ?rhs = map ServiceTarget.name services\<close>
  have "k \<in> set (map serviceName [0..<length services])"
    by (simp add: serviceName_upt)
  then obtain j where j: "j \<in> set [0..<length services]" and k: "k = serviceName j"
    by auto
  have "map_of ?lhs (serviceName j) = Some (cycle_status env j)"
    using inj_on_serviceName j by (rule map_of_fold_map_set)
  moreover have rhs: "?rhs =
      map (\<lambda>index. (serviceName index, cycle_status env index)) [0..<length services]"
    by (simp add: serviceName_registered)
  have "map_of ?rhs (serviceName j) = Some (cycle_status env j)"
    by (simp only: rhs map_of_mapped [OF inj_on_serviceName j])
  ultimately show "map_of ?lhs k = map_of ?rhs k"
    using k by simp
qed

section \<open>Properties of the hub and of runs\<close>

lemma fold_send:
  "fold (\<lambda>client s'. if P client then s'\<lparr>sent := sent s' @ [(client, m)]\<rparr> else s') cs s =
   s\<lparr>sent := sent s @ map (\<lambda>client. (client, m)) (filter P cs)\<rparr>"
  by (induction cs arbitrary: s) simp_all

lemma broadcastStatus_eq:
  "broadcastStatus ready now s =
   s\<lparr>sent := sent s @
        map (\<lambda>client. (client,
               \<lparr>type = ''status'', data = map_values (serviceStatuses s),
                timestamp = Some now\<rparr>))
          (filter (\<lambda>client. ready client = 1) (clients s))\<rparr>"
  by (simp add: broadcastStatus_def fold_send)

lemma clients_monitorServices: "clients (monitorServices env s) = clients s"
  by (simp add: monitorServices_def Let_def broadcastStatus_eq)

lemma store_monitorServices:
  "map fst (serviceStatuses s) = [] \<or>
   map fst (serviceStatuses s) = map ServiceTarget.name services \<Longrightarrow>
   serviceStatuses (monitorServices env s) =
     map (\<lambda>index. (ServiceTarget.name (services ! index), cycle_status env index))
       [0..<length services]"
  by (simp add: monitorServices_def Let_def broadcastStatus_eq cycle_fold store_after_cycle
      del: length_map)

lemma names_upt:
  "map (\<lambda>index. ServiceTarget.name (services ! index)) [0..<length services] =
   map ServiceTarget.name services"
  by (rule nth_equalityI) simp_all

lemma store_keys_monitorServices:
  "map fst (serviceStatuses s) = [] \<or>
   map fst (serviceStatuses s) = map ServiceTarget.name services \<Longrightarrow>
   map fst (serviceStatuses (monitorServices env s)) = map ServiceTarget.name services"
  by (simp add: store_monitorServices comp_def names_upt)

lemma sent_monitorServices:
  "sent (monitorServices env s) =
   sent s @
     map (\<lambda>client. (client,
            \<lparr>type = ''status'',
             data = map_values (serviceStatuses (monitorServices env s)),
             timestamp = Some (broadcastTime env)\<rparr>))
       (filter (\<lambda>client. readyState env client = 1) (clients s))"
  by (simp add: monitorServices_def Let_def broadcastStatus_eq)

lemma run_snoc: "run (evs @ [e]) s = step e (run evs s)"
  by (simp add: run_def)

lemma store_keys_run:
  "map fst (serviceStatuses (run evs initial_state)) = [] \<or>
   map fst (serviceStatuses (run evs initial_state)) = map ServiceTarget.name services"
proof (induction evs rule: rev_induct)
  case Nil
  show ?case by (simp add: run_def initial_state_def)
next
  case (snoc e evs)
  show ?case
  proof (cases e)
    case (Cycle env)
    with snoc show ?thesis by (simp add: run_snoc store_keys_monitorServices)
  next
    case (Connection ws)
    with snoc show ?thesis by (simp add: run_snoc on_connection_def)
  next
    case (Close ws)
    with snoc show ?thesis by (simp add: run_snoc on_close_def)
  qed
qed

lemma distinct_clients_run: "distinct (clients (run evs initial_state))"
proof (induction evs rule: rev_induct)
  case Nil
  show ?case by (simp add: run_def initial_state_def)
next
  case (snoc e evs)
  then show ?case
    by (cases e)
      (simp_all add: run_snoc clients_monitorServices on_connection_def on_close_def
        set_add_def set_delete_def distinct_removeAll)
qed

lemma store_keys_after_cycle:
  "Cycle env \<in> set evs \<Longrightarrow>
   map fst (serviceStatuses (run evs initial_state)) = map ServiceTarget.name services"
proof (induction evs rule: rev_induct)
  case Nil
  then show ?case by simp
next
  case (snoc e evs)
  show ?case
  proof (cases e)
    case (Cycle env')
    then show ?thesis
      using store_keys_run [of evs] by (simp add: run_snoc store_keys_monitorServices)
  next
    case (Connection ws)
    with snoc show ?thesis by (simp add: run_snoc on_connection_def)
  next
    case (Close ws)
    with snoc show ?thesis by (simp add: run_snoc on_close_def)
  qed
qed

section \<open>Further facts used below\<close>

lemma distinct_count_one:
  "distinct xs \<Longrightarrow> x \<in> set xs \<Longrightarrow> length (filter (\<lambda>y. y = x) xs) = 1"
  by (induction xs) (auto simp: filter_empty_conv)

lemma length_filter_all: "(length (filter P xs) = length xs) = (\<forall>x\<in>set xs. P x)"
proof (induction xs)
  case Nil
  show ?case by simp
next
  case (Cons x xs)
  have "length (filter P xs) \<noteq> Suc (length xs)"
    using length_filter_le [of P xs] by linarith
  with Cons show ?case by auto
qed

lemma cycle_status_healthy_no_error:
  "status (cycle_status env index) = Healthy \<Longrightarrow> error (cycle_status env index) = None"
  by (auto simp: cycle_status_def checkServiceHealth_def
      split: settled.splits axios_result.splits sum.splits)

lemma cycle_status_rejected:
  "checkServiceHealth (probes env index) (services ! index) = Rejected reason \<Longrightarrow>
   cycle_status env index =
     \<lparr>ServiceStatus.name = serviceName index, status = Unknown, responseTime = 0,
      lastCheck = synthTime env index, uptime = 0, error = Some ''Health check failed''\<rparr>"
  by (simp add: cycle_status_def)

lemma store_cycle_run:
  "serviceStatuses (monitorServices env (run evs initial_state)) =
     map (\<lambda>index. (ServiceTarget.name (services ! index), cycle_status env index))
       [0..<length services]"
  using store_keys_run [of evs] by (rule store_monitorServices)

lemma count_key:
  "length (filter (\<lambda>entry. fst entry = k) st) = length (filter (\<lambda>y. y = k) (map fst st))"
  by (induction st) simp_all

lemma values_cycle_run:
  "map_values (serviceStatuses (monitorServices env (run evs initial_state))) =
     map (cycle_status env) [0..<length services]"
  by (simp add: store_cycle_run map_values_def comp_def)

lemma filter_receiver:
  "filter (\<lambda>m. fst m = c) (map (\<lambda>client. (client, p)) cs) =
   map (\<lambda>client. (client, p)) (filter (\<lambda>y. y = c) cs)"
  by (induction cs) simp_all

lemma sample_cycle_health:
  "map (\<lambda>index. status (cycle_status sample_cycle index)) [0..<length services] =
     [Healthy, Unhealthy, Unknown, Healthy, Healthy, Healthy, Healthy]"
  by (simp add: length_services upt_rec cycle_status_def sample_cycle_def probe_ok_def
      probe_timeout_def probe_fault_def checkServiceHealth_def validateStatus_def)

lemma removeAll_filter: "removeAll x xs = filter (\<lambda>c. c \<noteq> x) xs"
  by (induction xs) simp_all

lemma clients_on_close: "clients (on_close ws s) = filter (\<lambda>c. c \<noteq> ws) (clients s)"
  by (simp add: on_close_def set_delete_def removeAll_filter)

lemma set_clients_on_connection:
  "set (clients (on_connection ws s)) = insert ws (set (clients s))"
  by (auto simp: on_connection_def set_add_def)

lemma step_keeps_client:
  assumes "client \<in> set (clients s)" and "client \<notin> set (clients (step e s))"
  shows "e = Close client"
proof (cases e)
  case (Cycle env)
  with assms show ?thesis by (simp add: clients_monitorServices)
next
  case (Connection ws)
  with assms show ?thesis by (simp add: set_clients_on_connection)
next
  case (Close ws)
  with assms show ?thesis by (auto simp: clients_on_close)
qed

section \<open>The specified properties\<close>

text \<open>
  C1. Whenever the GET completes with a response whose status code is below 500,
  \<open>checkServiceHealth\<close> returns a record with status \<open>healthy\<close>; its uptime is 100 when
  the code is exactly 200 and 90 for every other accepted code.
\<close>

theorem C1_accepted_response_is_healthy:
  assumes "outcome env = Response code" and "code < 500"
  shows "\<exists>r. checkServiceHealth env service = Fulfilled r
           \<and> status r = Healthy
           \<and> uptime r = (if code = 200 then 100 else 90)"
  using assms by (simp add: checkServiceHealth_def validateStatus_def)

text \<open>Instances of C1: a response with code 200 and one with code 404.\<close>

theorem C1_accepted_response_is_healthy_witness:
  "(\<exists>r. checkServiceHealth
           \<lparr>startTime = 1000, outcome = Response 200, endTime = 1010, checkTime = 1011\<rparr>
           \<lparr>ServiceTarget.name = ''backend'', url = ''http://localhost:5000/health''\<rparr>
         = Fulfilled r \<and> status r = Healthy \<and> uptime r = 100)
   \<and> (\<exists>r. checkServiceHealth
           \<lparr>startTime = 1000, outcome = Response 404, endTime = 1010, checkTime = 1011\<rparr>
           \<lparr>ServiceTarget.name = ''backend'', url = ''http://localhost:5000/health''\<rparr>
         = Fulfilled r \<and> status r = Healthy \<and> uptime r = 90)"
  using
    C1_accepted_response_is_healthy
      [of "\<lparr>startTime = 1000, outcome = Response 200, endTime = 1010, checkTime = 1011\<rparr>" 200
          "\<lparr>ServiceTarget.name = ''backend'', url = ''http://localhost:5000/health''\<rparr>"]
    C1_accepted_response_is_healthy
      [of "\<lparr>startTime = 1000, outcome = Response 404, endTime = 1010, checkTime = 1011\<rparr>" 404
          "\<lparr>ServiceTarget.name = ''backend'', url = ''http://localhost:5000/health''\<rparr>"]
  by simp




text \<open>
  C3. For every target and for every classified outcome of the probe (a response with
  any status code, a timeout, a transport failure) the promise of
  \<open>checkServiceHealth\<close> is fulfilled with a record and not rejected; the failure is
  encoded in the record as status \<open>unhealthy\<close> with an \<open>error\<close> field. The same holds
  for any other error object the awaited call may throw. (A rejection needs a thrown
  value that has no properties, see \<open>checkServiceHealth_fault_nullish\<close>; that case is
  the subject of C4.)
\<close>

theorem C3_prober_total:
  "(\<exists>r. checkServiceHealth (env\<lparr>outcome := Response code\<rparr>) service = Fulfilled r
        \<and> status r = (if code < 500 then Healthy else Unhealthy))
   \<and> (\<exists>r. checkServiceHealth (env\<lparr>outcome := Timeout\<rparr>) service = Fulfilled r
        \<and> status r = Unhealthy \<and> error r \<noteq> None)
   \<and> (\<exists>r. checkServiceHealth (env\<lparr>outcome := TransportFailure msg\<rparr>) service = Fulfilled r
        \<and> status r = Unhealthy \<and> error r \<noteq> None)
   \<and> (\<exists>r. checkServiceHealth (env\<lparr>outcome := Fault (JsObject m)\<rparr>) service = Fulfilled r
        \<and> status r = Unhealthy)"
proof (intro conjI)
  show "\<exists>r. checkServiceHealth (env\<lparr>outcome := Response code\<rparr>) service = Fulfilled r
        \<and> status r = (if code < 500 then Healthy else Unhealthy)"
    by (cases "code < 500") (simp_all add: checkServiceHealth_accepted checkServiceHealth_refused)
  show "\<exists>r. checkServiceHealth (env\<lparr>outcome := Timeout\<rparr>) service = Fulfilled r
        \<and> status r = Unhealthy \<and> error r \<noteq> None"
    by (simp add: checkServiceHealth_timeout)
  show "\<exists>r. checkServiceHealth (env\<lparr>outcome := TransportFailure msg\<rparr>) service = Fulfilled r
        \<and> status r = Unhealthy \<and> error r \<noteq> None"
    by (simp add: checkServiceHealth_transport)
  show "\<exists>r. checkServiceHealth (env\<lparr>outcome := Fault (JsObject m)\<rparr>) service = Fulfilled r
        \<and> status r = Unhealthy"
    by (simp add: checkServiceHealth_def)
qed

text \<open>Instances of C3: a response with code 503 and one with code 302.\<close>

theorem C3_prober_total_witness:
  "(\<exists>r. checkServiceHealth (probe_ok\<lparr>outcome := Response 503\<rparr>) (services ! 0) = Fulfilled r
        \<and> status r = Unhealthy)
   \<and> (\<exists>r. checkServiceHealth (probe_ok\<lparr>outcome := Response 302\<rparr>) (services ! 0) = Fulfilled r
        \<and> status r = Healthy)"
  using C3_prober_total [where env = probe_ok and code = 503 and service = "services ! 0"]
    C3_prober_total [where env = probe_ok and code = 302 and service = "services ! 0"]
  by simp

text \<open>
  C4. In every polling cycle, for the registered target at any index: if the promise of
  its prober invocation is rejected, then after the cycle the store holds, under the
  target's name, the synthesized record with status \<open>unknown\<close>, response time 0,
  uptime 0 and error \<open>Health check failed\<close>; and the keys of the store are exactly the
  names of the registered targets, one entry each.
\<close>

theorem C4_rejected_probe_is_unknown:
  assumes "index < length services"
    and "checkServiceHealth (probes env index) (services ! index) = Rejected reason"
  shows "map_of (serviceStatuses (monitorServices env (run evs initial_state)))
           (ServiceTarget.name (services ! index)) =
         Some \<lparr>ServiceStatus.name = ServiceTarget.name (services ! index), status = Unknown,
               responseTime = 0, lastCheck = synthTime env index, uptime = 0,
               error = Some ''Health check failed''\<rparr>
       \<and> map fst (serviceStatuses (monitorServices env (run evs initial_state))) =
           map ServiceTarget.name services"
proof
  have store: "serviceStatuses (monitorServices env (run evs initial_state)) =
      map (\<lambda>index. (serviceName index, cycle_status env index)) [0..<length services]"
    using store_keys_run [of evs]
    by (simp add: store_monitorServices serviceName_registered)
  from assms(1) have "index \<in> set [0..<length services]" by simp
  with inj_on_serviceName
  have "map_of (map (\<lambda>index. (serviceName index, cycle_status env index))
          [0..<length services]) (serviceName index) = Some (cycle_status env index)"
    by (rule map_of_mapped)
  with store assms show "map_of (serviceStatuses (monitorServices env (run evs initial_state)))
           (ServiceTarget.name (services ! index)) =
         Some \<lparr>ServiceStatus.name = ServiceTarget.name (services ! index), status = Unknown,
               responseTime = 0, lastCheck = synthTime env index, uptime = 0,
               error = Some ''Health check failed''\<rparr>"
    by (simp add: cycle_status_rejected serviceName_registered)
  show "map fst (serviceStatuses (monitorServices env (run evs initial_state))) =
           map ServiceTarget.name services"
    using store_keys_run [of evs] by (rule store_keys_monitorServices)
qed

text \<open>
  An instance of C4: in the sample cycle the probe of \<open>admin\<close> (index 2) throws
  \<open>null\<close>, and its promise is rejected.
\<close>

theorem C4_rejected_probe_is_unknown_witness:
  "2 < length services
   \<and> checkServiceHealth (probes sample_cycle 2) (services ! 2) = Rejected TypeError
   \<and> map_of (serviceStatuses (monitorServices sample_cycle (run [] initial_state))) ''admin'' =
       Some \<lparr>ServiceStatus.name = ''admin'', status = Unknown, responseTime = 0,
             lastCheck = 6003, uptime = 0, error = Some ''Health check failed''\<rparr>"
proof -
  have i: "2 < length services" by (simp add: length_services)
  have r: "checkServiceHealth (probes sample_cycle 2) (services ! 2) = Rejected TypeError"
    by (simp add: sample_cycle_def probe_fault_def checkServiceHealth_def)
  have n: "ServiceTarget.name (services ! 2) = ''admin''" by (simp add: services_def)
  have t: "synthTime sample_cycle 2 = 6003" by (simp add: sample_cycle_def)
  from C4_rejected_probe_is_unknown [OF i r, of "[]"] i r n t show ?thesis by simp
qed

text \<open>
  C5. After a polling cycle, whatever happened before it, the store consists of exactly
  one entry per registered target, in registry order, each holding the status from that
  cycle (earlier values are overwritten, nothing is duplicated or dropped). Hence in
  every state of a run in which a cycle has completed, every registered target has
  exactly one entry keyed by its name.
\<close>

theorem C5_one_entry_per_target:
  "serviceStatuses (step (Cycle env) (run evs initial_state)) =
     map (\<lambda>index. (ServiceTarget.name (services ! index), cycle_status env index))
       [0..<length services]
   \<and> (Cycle env \<in> set evs \<longrightarrow>
        (\<forall>T\<in>set services.
           length (filter (\<lambda>entry. fst entry = ServiceTarget.name T)
                     (serviceStatuses (run evs initial_state))) = 1))"
proof (intro conjI impI ballI)
  show "serviceStatuses (step (Cycle env) (run evs initial_state)) =
     map (\<lambda>index. (ServiceTarget.name (services ! index), cycle_status env index))
       [0..<length services]"
    by (simp add: store_cycle_run)
next
  fix T
  assume "Cycle env \<in> set evs" and T: "T \<in> set services"
  then have keys: "map fst (serviceStatuses (run evs initial_state)) =
      map ServiceTarget.name services"
    by (simp add: store_keys_after_cycle)
  from T have "ServiceTarget.name T \<in> set (map ServiceTarget.name services)" by simp
  with distinct_service_names
  have "length (filter (\<lambda>y. y = ServiceTarget.name T) (map ServiceTarget.name services)) = 1"
    by (rule distinct_count_one)
  with keys show "length (filter (\<lambda>entry. fst entry = ServiceTarget.name T)
                     (serviceStatuses (run evs initial_state))) = 1"
    by (simp only: count_key)
qed

text \<open>An instance of C5: two cycles with a connection in between, target \<open>core\<close>.\<close>

theorem C5_one_entry_per_target_witness:
  "Cycle sample_cycle \<in> set [Cycle sample_cycle, Connection 5, Cycle sample_cycle]
   \<and> services ! 1 \<in> set services
   \<and> length (filter (\<lambda>entry. fst entry = ''core'')
        (serviceStatuses
           (run [Cycle sample_cycle, Connection 5, Cycle sample_cycle] initial_state))) = 1"
proof -
  have T: "services ! 1 \<in> set services" by (simp add: services_def)
  have n: "ServiceTarget.name (services ! 1) = ''core''" by (simp add: services_def)
  from C5_one_entry_per_target
    [of sample_cycle "[Cycle sample_cycle, Connection 5, Cycle sample_cycle]"] T n
  show ?thesis by auto
qed

text \<open>
  C6. In every state of every run, every record in the store whose status is
  \<open>healthy\<close> has no \<open>error\<close> field, whether the prober produced it or the scheduler
  synthesized it.
\<close>

theorem C6_healthy_has_no_error:
  "\<forall>entry\<in>set (serviceStatuses (run evs initial_state)).
     status (snd entry) = Healthy \<longrightarrow> error (snd entry) = None"
proof (induction evs rule: rev_induct)
  case Nil
  show ?case by (simp add: run_def initial_state_def)
next
  case (snoc e evs)
  show ?case
  proof (cases e)
    case (Cycle env)
    then show ?thesis
      by (auto simp: run_snoc store_cycle_run cycle_status_healthy_no_error)
  next
    case (Connection ws)
    with snoc show ?thesis by (simp add: run_snoc on_connection_def)
  next
    case (Close ws)
    with snoc show ?thesis by (simp add: run_snoc on_close_def)
  qed
qed

text \<open>An instance of C6: the entry of \<open>backend\<close> after the sample cycle.\<close>

theorem C6_healthy_has_no_error_witness:
  "(''backend'', cycle_status sample_cycle 0)
     \<in> set (serviceStatuses (run [Cycle sample_cycle] initial_state))
   \<and> status (cycle_status sample_cycle 0) = Healthy
   \<and> error (cycle_status sample_cycle 0) = None"
proof -
  have "(ServiceTarget.name (services ! 0), cycle_status sample_cycle 0)
      \<in> set (serviceStatuses (monitorServices sample_cycle (run [] initial_state)))"
    unfolding store_cycle_run by (simp add: length_services)
  then have mem: "(''backend'', cycle_status sample_cycle 0)
      \<in> set (serviceStatuses (run [Cycle sample_cycle] initial_state))"
    by (simp add: run_def services_def)
  have h: "status (cycle_status sample_cycle 0) = Healthy"
    by (simp add: cycle_status_def sample_cycle_def probe_ok_def checkServiceHealth_def
        validateStatus_def)
  from C6_healthy_has_no_error [of "[Cycle sample_cycle]"] mem h show ?thesis by force
qed

text \<open>
  C7. A completed polling cycle sends one payload, built once, to the connections of the
  live set that are open (\<open>readyState\<close> 1, the glossary's live clients), in set order:
  the payload carries the snapshot, which is the status this cycle recorded for every
  registered target, and the broadcast timestamp. Every such connection receives
  exactly one message in the cycle.
\<close>

theorem C7_cycle_broadcasts_snapshot:
  "sent (monitorServices env (run evs initial_state)) =
     sent (run evs initial_state) @
       map (\<lambda>client. (client,
              \<lparr>type = ''status'',
               data = map (cycle_status env) [0..<length services],
               timestamp = Some (broadcastTime env)\<rparr>))
         (filter (\<lambda>client. readyState env client = 1) (clients (run evs initial_state)))
   \<and> map_values (serviceStatuses (monitorServices env (run evs initial_state))) =
       map (cycle_status env) [0..<length services]
   \<and> (\<forall>client\<in>set (clients (run evs initial_state)).
        readyState env client = 1 \<longrightarrow>
        length (filter (\<lambda>m. fst m = client)
                  (drop (length (sent (run evs initial_state)))
                     (sent (monitorServices env (run evs initial_state))))) = 1)"
proof (intro conjI ballI impI)
  show sent_eq: "sent (monitorServices env (run evs initial_state)) =
     sent (run evs initial_state) @
       map (\<lambda>client. (client,
              \<lparr>type = ''status'',
               data = map (cycle_status env) [0..<length services],
               timestamp = Some (broadcastTime env)\<rparr>))
         (filter (\<lambda>client. readyState env client = 1) (clients (run evs initial_state)))"
    by (simp only: sent_monitorServices [of env "run evs initial_state"] values_cycle_run)
  show "map_values (serviceStatuses (monitorServices env (run evs initial_state))) =
       map (cycle_status env) [0..<length services]"
    by (rule values_cycle_run)
  fix client
  assume "client \<in> set (clients (run evs initial_state))" and "readyState env client = 1"
  then have "client \<in> set (filter (\<lambda>client. readyState env client = 1)
                             (clients (run evs initial_state)))"
    by simp
  moreover have "distinct (filter (\<lambda>client. readyState env client = 1)
                             (clients (run evs initial_state)))"
    using distinct_clients_run [of evs] by simp
  ultimately have "length (filter (\<lambda>y. y = client)
      (filter (\<lambda>client. readyState env client = 1) (clients (run evs initial_state)))) = 1"
    by (rule distinct_count_one [rotated])
  then show "length (filter (\<lambda>m. fst m = client)
                  (drop (length (sent (run evs initial_state)))
                     (sent (monitorServices env (run evs initial_state))))) = 1"
    by (simp only: sent_eq append_eq_conv_conj drop_append length_map filter_receiver
        diff_self_eq_0 drop_0 drop_all order_refl append_Nil)
qed

text \<open>An instance of C7: connection 8 is in the set and open in the sample cycle.\<close>

theorem C7_cycle_broadcasts_snapshot_witness:
  "8 \<in> set (clients (run [Connection 7, Connection 8] initial_state))
   \<and> readyState sample_cycle 8 = 1
   \<and> length (filter (\<lambda>m. fst m = 8)
        (drop (length (sent (run [Connection 7, Connection 8] initial_state)))
           (sent (monitorServices sample_cycle
                    (run [Connection 7, Connection 8] initial_state))))) = 1"
proof -
  have c: "8 \<in> set (clients (run [Connection 7, Connection 8] initial_state))"
    by (simp add: run_def initial_state_def on_connection_def set_add_def)
  have r: "readyState sample_cycle 8 = 1" by (simp add: sample_cycle_def)
  from C7_cycle_broadcasts_snapshot [of sample_cycle "[Connection 7, Connection 8]"] c r
  show ?thesis by blast
qed

text \<open>
  C8, as the code has it. A broadcast sends its payload to exactly the open members of
  the live set, in set order: a connection that is not open is skipped, and the
  messages sent are those that would be sent if the connections that are not open
  were absent from the set. The broadcast never changes the live set. Handling the
  \<open>close\<close> event of a connection removes that connection and no other, and it is the
  only step that removes a connection from the set.
\<close>

theorem C8_closed_connection_skipped:
  "clients (monitorServices env s) = clients s
   \<and> sent (monitorServices env s) =
       sent s @
         map (\<lambda>c. (c, \<lparr>type = ''status'',
                       data = map snd (serviceStatuses (monitorServices env s)),
                       timestamp = Some (broadcastTime env)\<rparr>))
           (filter (\<lambda>c. readyState env c = 1) (clients s))
   \<and> sent (monitorServices env
        (s\<lparr>clients := filter (\<lambda>c. readyState env c = 1) (clients s)\<rparr>)) =
       sent (monitorServices env s)
   \<and> clients (step (Close client) s) = filter (\<lambda>c. c \<noteq> client) (clients s)
   \<and> (client \<in> set (clients s) \<and> client \<notin> set (clients (step e s)) \<longrightarrow> e = Close client)"
proof (intro conjI impI)
  show "clients (monitorServices env s) = clients s"
    by (rule clients_monitorServices)
  show "sent (monitorServices env s) =
       sent s @
         map (\<lambda>c. (c, \<lparr>type = ''status'',
                       data = map snd (serviceStatuses (monitorServices env s)),
                       timestamp = Some (broadcastTime env)\<rparr>))
           (filter (\<lambda>c. readyState env c = 1) (clients s))"
    using sent_monitorServices [of env s] by (simp add: map_values_def)
  show "sent (monitorServices env
        (s\<lparr>clients := filter (\<lambda>c. readyState env c = 1) (clients s)\<rparr>)) =
       sent (monitorServices env s)"
    by (simp add: monitorServices_def Let_def broadcastStatus_eq)
  show "clients (step (Close client) s) = filter (\<lambda>c. c \<noteq> client) (clients s)"
    by (simp add: clients_on_close)
  assume "client \<in> set (clients s) \<and> client \<notin> set (clients (step e s))"
  then show "e = Close client" by (blast intro: step_keeps_client)
qed

text \<open>
  An instance of C8: connection 7 is in the set, and handling its \<open>close\<close> event removes
  it and leaves connection 8.
\<close>

theorem C8_closed_connection_skipped_witness:
  "7 \<in> set (clients (run [Connection 7, Connection 8] initial_state))
   \<and> 7 \<notin> set (clients (step (Close 7) (run [Connection 7, Connection 8] initial_state)))
   \<and> clients (step (Close 7) (run [Connection 7, Connection 8] initial_state)) = [8]"
proof -
  have c: "clients (run [Connection 7, Connection 8] initial_state) = [7, 8]"
    by (simp add: run_def initial_state_def on_connection_def set_add_def)
  from c
    C8_closed_connection_skipped [of sample_cycle "run [Connection 7, Connection 8] initial_state" 7 "Close 7"]
  show ?thesis by simp
qed

text \<open>
  C8 as worded has a connection that a broadcast could not reach removed from the live
  set before the next broadcast. In the run below connection 7 is closing
  (\<open>readyState\<close> 2) during the cycle: the broadcast goes to connection 8 only, and
  connection 7 is still in the set after this cycle and after the next one, since no
  \<open>close\<close> event was handled.
\<close>

theorem C8_closed_connection_stays_counterexample:
  "readyState sample_cycle 7 = 2
   \<and> clients (run [Connection 7, Connection 8, Cycle sample_cycle] initial_state) = [7, 8]
   \<and> sent (run [Connection 7, Connection 8, Cycle sample_cycle] initial_state) =
       [(7, \<lparr>type = ''status'', data = [], timestamp = None\<rparr>),
        (8, \<lparr>type = ''status'', data = [], timestamp = None\<rparr>),
        (8, \<lparr>type = ''status'',
             data = map (cycle_status sample_cycle) [0..<length services],
             timestamp = Some 6004\<rparr>)]
   \<and> clients (run [Connection 7, Connection 8, Cycle sample_cycle, Cycle sample_cycle]
        initial_state) = [7, 8]"
proof -
  have s0: "run [Connection 7, Connection 8] initial_state =
      \<lparr>serviceStatuses = [], clients = [7, 8],
       sent = [(7, \<lparr>type = ''status'', data = [], timestamp = None\<rparr>),
               (8, \<lparr>type = ''status'', data = [], timestamp = None\<rparr>)]\<rparr>"
    by (simp add: run_def initial_state_def on_connection_def set_add_def map_values_def)
  have split1: "run [Connection 7, Connection 8, Cycle sample_cycle] initial_state =
      monitorServices sample_cycle (run [Connection 7, Connection 8] initial_state)"
    by (simp add: run_def)
  have split2:
    "run [Connection 7, Connection 8, Cycle sample_cycle, Cycle sample_cycle] initial_state =
      monitorServices sample_cycle
        (monitorServices sample_cycle (run [Connection 7, Connection 8] initial_state))"
    by (simp add: run_def)
  have ready: "readyState sample_cycle 7 = 2" "readyState sample_cycle 8 = 1"
    and now: "broadcastTime sample_cycle = 6004"
    by (simp_all add: sample_cycle_def)
  have sent1:
    "sent (monitorServices sample_cycle (run [Connection 7, Connection 8] initial_state)) =
       [(7, \<lparr>type = ''status'', data = [], timestamp = None\<rparr>),
        (8, \<lparr>type = ''status'', data = [], timestamp = None\<rparr>),
        (8, \<lparr>type = ''status'',
             data = map (cycle_status sample_cycle) [0..<length services],
             timestamp = Some 6004\<rparr>)]"
    unfolding sent_monitorServices values_cycle_run
    by (simp add: s0 ready now)
  have "clients (run [Connection 7, Connection 8] initial_state) = [7, 8]"
    by (simp add: s0)
  with sent1 ready show ?thesis
    by (simp only: split1 split2 clients_monitorServices simp_thms)
qed

text \<open>
  C9. When a client connects, the handler adds the connection to the live set, keeping
  the others, and sends it, in the same step, exactly one message whose data are the
  values of the store at that moment, in entry order; the store is not changed. After
  a polling cycle these data are the statuses that cycle recorded for the registered
  targets.
\<close>

theorem C9_connection_receives_snapshot:
  "set (clients (step (Connection ws) s)) = insert ws (set (clients s))
   \<and> sent (step (Connection ws) s) =
       sent s @
         [(ws, \<lparr>type = ''status'', data = map snd (serviceStatuses s), timestamp = None\<rparr>)]
   \<and> serviceStatuses (step (Connection ws) s) = serviceStatuses s
   \<and> sent (step (Connection ws) (step (Cycle env) (run evs initial_state))) =
       sent (step (Cycle env) (run evs initial_state)) @
         [(ws, \<lparr>type = ''status'',
                data = map (cycle_status env) [0..<length services],
                timestamp = None\<rparr>)]"
proof (intro conjI)
  show "set (clients (step (Connection ws) s)) = insert ws (set (clients s))"
    by (simp add: set_clients_on_connection)
  show snapshot: "sent (step (Connection ws) s) =
       sent s @
         [(ws, \<lparr>type = ''status'', data = map snd (serviceStatuses s), timestamp = None\<rparr>)]"
    for s
    by (simp add: on_connection_def map_values_def)
  show "serviceStatuses (step (Connection ws) s) = serviceStatuses s"
    by (simp add: on_connection_def)
  have "map snd (serviceStatuses (step (Cycle env) (run evs initial_state))) =
      map (cycle_status env) [0..<length services]"
    by (simp add: store_cycle_run comp_def)
  then show "sent (step (Connection ws) (step (Cycle env) (run evs initial_state))) =
       sent (step (Cycle env) (run evs initial_state)) @
         [(ws, \<lparr>type = ''status'',
                data = map (cycle_status env) [0..<length services],
                timestamp = None\<rparr>)]"
    by (simp only: snapshot)
qed

text \<open>
  An instance of C9: a client connecting after the sample cycle receives seven records,
  those of the cycle.
\<close>

theorem C9_connection_receives_snapshot_witness:
  "fst (last (sent (step (Connection 9) (step (Cycle sample_cycle) (run [] initial_state)))))
     = 9
   \<and> map status
       (data (snd (last (sent
          (step (Connection 9) (step (Cycle sample_cycle) (run [] initial_state)))))))
     = [Healthy, Unhealthy, Unknown, Healthy, Healthy, Healthy, Healthy]
   \<and> timestamp (snd (last (sent
          (step (Connection 9) (step (Cycle sample_cycle) (run [] initial_state))))))
     = None
   \<and> 9 \<in> set (clients
          (step (Connection 9) (step (Cycle sample_cycle) (run [] initial_state))))"
proof -
  have health: "map status (map (cycle_status sample_cycle) [0..<length services]) =
      [Healthy, Unhealthy, Unknown, Healthy, Healthy, Healthy, Healthy]"
    using sample_cycle_health by (simp add: comp_def)
  note inst =
    C9_connection_receives_snapshot [of 9 "step (Cycle sample_cycle) (run [] initial_state)" sample_cycle "[]"]
  note snapshot = inst [THEN conjunct2, THEN conjunct2, THEN conjunct2]
  note member = inst [THEN conjunct1]
  from health show ?thesis
    by (simp only: snapshot member last_snoc fst_conv snd_conv StatusMessage.simps
        insertI1 simp_thms)
qed

text \<open>
  C10. In the summary of \<open>/api/status\<close>, \<open>unhealthyServices\<close> is \<open>totalServices\<close> minus
  \<open>healthyServices\<close>, which is the number of entries whose status is not \<open>healthy\<close>
  (so \<open>unknown\<close> counts as unhealthy); \<open>overallHealth\<close> is \<open>healthy\<close> exactly when every
  entry is healthy; with an empty store \<open>totalServices\<close> is 0 and \<open>overallHealth\<close> is
  \<open>healthy\<close>.
\<close>

theorem C10_status_summary:
  "unhealthyServices (summary (api_status s)) =
     totalServices (summary (api_status s)) - healthyServices (summary (api_status s))
   \<and> unhealthyServices (summary (api_status s)) =
       int (length (filter (\<lambda>x. status x \<noteq> Healthy) (map_values (serviceStatuses s))))
   \<and> (overallHealth (summary (api_status s)) = ''healthy'' \<longleftrightarrow>
        (\<forall>x\<in>set (map_values (serviceStatuses s)). status x = Healthy))
   \<and> totalServices (summary (api_status (s\<lparr>serviceStatuses := []\<rparr>))) = 0
   \<and> overallHealth (summary (api_status (s\<lparr>serviceStatuses := []\<rparr>))) = ''healthy''"
proof (intro conjI)
  show "unhealthyServices (summary (api_status s)) =
     totalServices (summary (api_status s)) - healthyServices (summary (api_status s))"
    by (simp add: api_status_def Let_def)
  show "unhealthyServices (summary (api_status s)) =
       int (length (filter (\<lambda>x. status x \<noteq> Healthy) (map_values (serviceStatuses s))))"
    using sum_length_filter_compl
      [of "\<lambda>x. status x = Healthy" "map_values (serviceStatuses s)"]
    by (simp add: api_status_def Let_def)
  show "overallHealth (summary (api_status s)) = ''healthy'' \<longleftrightarrow>
        (\<forall>x\<in>set (map_values (serviceStatuses s)). status x = Healthy)"
    by (simp add: api_status_def Let_def length_filter_all)
  show "totalServices (summary (api_status (s\<lparr>serviceStatuses := []\<rparr>))) = 0"
    by (simp add: api_status_def Let_def map_values_def)
  show "overallHealth (summary (api_status (s\<lparr>serviceStatuses := []\<rparr>))) = ''healthy''"
    by (simp add: api_status_def Let_def map_values_def)
qed

text \<open>
  An instance of C10: after the sample cycle from the initial state, seven entries of
  which one is unhealthy and one unknown.
\<close>

theorem C10_status_summary_witness:
  "unhealthyServices
     (summary (api_status (monitorServices sample_cycle (run [] initial_state)))) = 2
   \<and> totalServices
     (summary (api_status (monitorServices sample_cycle (run [] initial_state)))) = 7
   \<and> overallHealth
     (summary (api_status (monitorServices sample_cycle (run [] initial_state)))) = ''degraded''"
proof -
  have "filter (\<lambda>x. x \<noteq> Healthy)
          (map status (map_values
             (serviceStatuses (monitorServices sample_cycle (run [] initial_state))))) =
        [Unhealthy, Unknown]"
    by (simp add: values_cycle_run comp_def sample_cycle_health)
  then have two: "length (filter (\<lambda>x. status x \<noteq> Healthy)
          (map_values
             (serviceStatuses (monitorServices sample_cycle (run [] initial_state))))) = 2"
    by (simp add: filter_map comp_def flip: length_map [of status])
  have seven: "totalServices
     (summary (api_status (monitorServices sample_cycle (run [] initial_state)))) = 7"
    by (simp add: api_status_def Let_def values_cycle_run length_services)
  from C10_status_summary [of "monitorServices sample_cycle (run [] initial_state)"]
    two seven
  show ?thesis
    by (auto simp: api_status_def Let_def)
qed

end
